theory Spec2Isabelle
  imports Main
begin

section \<open>Host string operations\<close>

text \<open>
  JavaScript strings are sequences of code units. They are modelled as \<open>string\<close>, so
  the model covers the code units below 256 (ASCII and Latin-1), which is where every
  character the converter looks at lives.
\<close>

abbreviation nl :: char where
  "nl \<equiv> CHR 0x0A"

abbreviation dquote :: char where
  "dquote \<equiv> CHR 0x22"

abbreviation backslash :: char where
  "backslash \<equiv> CHR 0x5C"

text \<open>\<open>s.startsWith(p)\<close>\<close>

fun str_startsWith :: "string \<Rightarrow> string \<Rightarrow> bool" where
  "str_startsWith s [] = True"
| "str_startsWith [] (p # ps) = False"
| "str_startsWith (c # cs) (p # ps) = (c = p \<and> str_startsWith cs ps)"

text \<open>\<open>s.endsWith(p)\<close>\<close>

definition str_endsWith :: "string \<Rightarrow> string \<Rightarrow> bool" where
  "str_endsWith s p = str_startsWith (rev s) (rev p)"

text \<open>\<open>s.includes(p)\<close>: \<open>p\<close> occurs at some position of \<open>s\<close>.\<close>

fun str_includes :: "string \<Rightarrow> string \<Rightarrow> bool" where
  "str_includes [] p = (p = [])"
| "str_includes (c # cs) p = (str_startsWith (c # cs) p \<or> str_includes cs p)"

text \<open>
  \<open>s.split(sep)\<close> for a one-character separator: the pieces between the separators,
  so \<open>''''\<close> gives one empty piece and a string that ends with the separator gives a
  last piece that is empty.
\<close>

fun str_split :: "char \<Rightarrow> string \<Rightarrow> string list" where
  "str_split sep [] = [[]]"
| "str_split sep (c # cs) =
     (if c = sep then [] # str_split sep cs
      else (c # hd (str_split sep cs)) # tl (str_split sep cs))"

text \<open>\<open>xs.join(sep)\<close>\<close>

fun str_join :: "string \<Rightarrow> string list \<Rightarrow> string" where
  "str_join sep [] = []"
| "str_join sep [x] = x"
| "str_join sep (x # y # ys) = x @ sep @ str_join sep (y # ys)"

text \<open>\<open>' '.repeat(n)\<close>\<close>

definition str_repeat :: "string \<Rightarrow> nat \<Rightarrow> string" where
  "str_repeat s n = concat (replicate n s)"

text \<open>
  The white space of \<open>\s\<close> and of \<open>trim()\<close> among the code units below 256: tab, line
  feed, vertical tab, form feed, carriage return, space and no-break space.
\<close>

definition isSpace :: "char \<Rightarrow> bool" where
  "isSpace c = ((of_char c :: nat) \<in> {9, 10, 11, 12, 13, 32, 160})"

definition isDigit :: "char \<Rightarrow> bool" where
  "isDigit c = (48 \<le> (of_char c :: nat) \<and> (of_char c :: nat) \<le> 57)"

text \<open>\<open>s.trim()\<close>\<close>

definition str_trim :: "string \<Rightarrow> string" where
  "str_trim s = rev (dropWhile isSpace (rev (dropWhile isSpace s)))"

text \<open>The decimal text of a natural number, as a template literal prints an index.\<close>

definition digitChar :: "nat \<Rightarrow> char" where
  "digitChar d = char_of (48 + d)"

function showNat :: "nat \<Rightarrow> string" where
  "showNat n = (if n < 10 then [digitChar n] else showNat (n div 10) @ [digitChar (n mod 10)])"
  by pat_completeness auto
termination
  by (relation "measure (\<lambda>n. n)") auto

declare showNat.simps [simp del]

section \<open>Regular expressions\<close>

text \<open>
  The regular expression literals of the source use character classes, literal words,
  alternation, \<open>?\<close>, \<open>+\<close> and the anchors \<open>^\<close> and \<open>$\<close>. \<open>residuals\<close> gives, for a
  pattern and a subject, what is left of the subject after each way the pattern can match
  at its start; a pattern anchored by \<open>^\<close> tests true when there is such a match, and one
  anchored by \<open>^\<close> and \<open>$\<close> when some match leaves nothing.
\<close>

datatype cls = WS | DIGIT | CH char | RANGE char char

fun in_cls :: "char \<Rightarrow> cls \<Rightarrow> bool" where
  "in_cls c WS = isSpace c"
| "in_cls c DIGIT = isDigit c"
| "in_cls c (CH x) = (c = x)"
| "in_cls c (RANGE a b) = ((of_char a :: nat) \<le> of_char c \<and> (of_char c :: nat) \<le> of_char b)"

definition in_class :: "cls list \<Rightarrow> char \<Rightarrow> bool" where
  "in_class ks c = list_ex (in_cls c) ks"

datatype regex =
    Class "cls list"
  | Lit string
  | Alt regex regex
  | Seq regex regex
  | Opt regex
  | Plus regex

text \<open>
  Under the flag \<open>i\<close> two code units match when their canonical forms agree. The patterns
  of the source name ASCII letters only, and no code unit outside ASCII canonicalises to an
  ASCII letter, so folding the ASCII lower-case letters is enough.
\<close>

definition canon :: "bool \<Rightarrow> char \<Rightarrow> char" where
  "canon ci c =
     (if ci \<and> 97 \<le> (of_char c :: nat) \<and> (of_char c :: nat) \<le> 122
      then char_of ((of_char c :: nat) - 32) else c)"

primrec iterate :: "nat \<Rightarrow> (string \<Rightarrow> string list) \<Rightarrow> string \<Rightarrow> string list" where
  "iterate 0 f s = []"
| "iterate (Suc n) f s = concat (map (\<lambda>t. t # iterate n f t) (f s))"

primrec residuals :: "bool \<Rightarrow> regex \<Rightarrow> string \<Rightarrow> string list" where
  "residuals ci (Class ks) s =
     (case s of [] \<Rightarrow> [] | c # t \<Rightarrow> if in_class ks c then [t] else [])"
| "residuals ci (Lit w) s =
     (if length w \<le> length s \<and> map (canon ci) (take (length w) s) = map (canon ci) w
      then [drop (length w) s] else [])"
| "residuals ci (Alt a b) s = residuals ci a s @ residuals ci b s"
| "residuals ci (Seq a b) s = concat (map (residuals ci b) (residuals ci a s))"
| "residuals ci (Opt a) s = residuals ci a s @ [s]"
| "residuals ci (Plus a) s = iterate (Suc (length s)) (residuals ci a) s"

text \<open>\<open>/^r/.test(s)\<close>, with the flag \<open>i\<close> when \<open>ci\<close>\<close>

definition test_start :: "bool \<Rightarrow> regex \<Rightarrow> string \<Rightarrow> bool" where
  "test_start ci r s = (residuals ci r s \<noteq> [])"

text \<open>\<open>/^r$/.test(s)\<close>, with the flag \<open>i\<close> when \<open>ci\<close>\<close>

definition test_whole :: "bool \<Rightarrow> regex \<Rightarrow> string \<Rightarrow> bool" where
  "test_whole ci r s = ([] \<in> set (residuals ci r s))"

text \<open>\<open>s.replace(/[ks]/g, rep)\<close>: every character of the class is replaced.\<close>

definition replace_class :: "cls list \<Rightarrow> string \<Rightarrow> string \<Rightarrow> string" where
  "replace_class ks rep s = concat (map (\<lambda>c. if in_class ks c then rep else [c]) s)"

section \<open>The converter of \<open>src/yamlConverter.ts\<close>\<close>

subsection \<open>String Escaper\<close>

text \<open>
  \<open>JSON.stringify\<close> of a string: the string between double quotes, with the double quote
  and the backslash escaped, the short escapes for backspace, form feed, line feed,
  carriage return and tab, and \<open>\u00XX\<close> (lower-case hexadecimal) for every other control
  character below 0x20.
\<close>

definition hexDigit :: "nat \<Rightarrow> char" where
  "hexDigit d = (if d < 10 then char_of (48 + d) else char_of (87 + d))"

definition quoteChar :: "char \<Rightarrow> string" where
  "quoteChar c =
     (if c = dquote then [backslash, dquote]
      else if c = backslash then [backslash, backslash]
      else if c = CHR 0x08 then [backslash, CHR ''b'']
      else if c = CHR 0x0C then [backslash, CHR ''f'']
      else if c = nl then [backslash, CHR ''n'']
      else if c = CHR 0x0D then [backslash, CHR ''r'']
      else if c = CHR 0x09 then [backslash, CHR ''t'']
      else if (of_char c :: nat) < 32
        then [backslash, CHR ''u'', CHR ''0'', CHR ''0'',
              hexDigit ((of_char c :: nat) div 16), hexDigit ((of_char c :: nat) mod 16)]
      else [c])"

definition JSON_stringify :: "string \<Rightarrow> string" where
  "JSON_stringify str = [dquote] @ concat (map quoteChar str) @ [dquote]"

text \<open>\<open>JSON.stringify(str).slice(1, -1)\<close>\<close>

definition escapeString :: "string \<Rightarrow> string" where
  "escapeString str = butlast (tl (JSON_stringify str))"

subsection \<open>Scalar Classifier\<close>

text \<open>The four regular expression literals of \<open>needsQuotes\<close>, in the source's order.\<close>

definition specialStart :: regex where
  "specialStart = Class [WS, CH CHR ''-'', CH CHR '':'', CH CHR ''{'', CH CHR ''}'',
     CH CHR ''['', CH CHR '']'', CH CHR '','', CH CHR ''&'', CH CHR ''*'', CH CHR ''#'',
     CH CHR ''?'', CH CHR ''|'', CH CHR ''<'', CH CHR ''>'', CH CHR ''='', CH CHR ''!'',
     CH CHR ''%'', CH CHR ''@'', CH CHR 0x60]"

definition numberStart :: regex where
  "numberStart = Class [DIGIT, CH CHR ''-'']"

definition reservedWord :: regex where
  "reservedWord = Alt (Lit ''true'') (Alt (Lit ''false'') (Alt (Lit ''null'')
     (Alt (Lit ''yes'') (Alt (Lit ''no'') (Alt (Lit ''on'') (Lit ''off''))))))"

definition digitsAndDots :: regex where
  "digitsAndDots = Plus (Class [DIGIT, CH CHR ''.''])"

definition needsQuotes :: "string \<Rightarrow> bool" where
  "needsQuotes str =
     (test_start False specialStart str \<or>
      test_start False numberStart str \<or>
      test_whole True reservedWord str \<or>
      test_whole False digitsAndDots str)"

subsection \<open>String Formatter\<close>

text \<open>
  The loop \<open>while (lines.length > 0 && lines[lines.length - 1] === '' && !endsWithNewline)
  lines.pop()\<close>.
\<close>

function popTrailing :: "bool \<Rightarrow> string list \<Rightarrow> string list" where
  "popTrailing endsWithNewline lines =
     (if length lines > 0 \<and> last lines = [] \<and> \<not> endsWithNewline
      then popTrailing endsWithNewline (butlast lines) else lines)"
  by pat_completeness auto
termination
  by (relation "measure (\<lambda>(e, lines). length lines)") auto

declare popTrailing.simps [simp del]

definition formatString :: "string \<Rightarrow> string" where
  "formatString value =
     (if str_includes value [nl] \<or> str_includes value '': '' then
        (let lines = str_split nl value;
             endsWithNewline = str_endsWith value [nl];
             lines = popTrailing endsWithNewline lines
         in ''|'' @ [nl] @ str_join [nl] lines)
      else
        (let escaped = escapeString value
         in if needsQuotes value \<or> escaped \<noteq> value
            then [dquote] @ escaped @ [dquote]
            else value))"

subsection \<open>Indentation Reflow\<close>

text \<open>\<open>str_split\<close> never gives the empty list, so \<open>lines[0]\<close> is \<open>hd lines\<close>.\<close>

definition formatMultilineYaml :: "string \<Rightarrow> string \<Rightarrow> string \<Rightarrow> string list" where
  "formatMultilineYaml yamlValue prefix indentStr =
     (let lines = str_split nl yamlValue
      in if hd lines = ''|''
         then [indentStr @ prefix @ ''|''] @ map (\<lambda>line. indentStr @ ''  '' @ line) (tl lines)
         else [indentStr @ prefix] @ lines)"

subsection \<open>JSON values and the host's parser\<close>

text \<open>
  The values \<open>valueToYaml\<close> switches over. A finite number carries the text that
  \<open>Number.prototype.toString\<close> gives for it; the floating-point printing itself is the
  host's. An object is the list of its entries in the order of \<open>Object.keys\<close>.
\<close>

datatype number = NaN | PosInfinity | NegInfinity | Finite string

datatype json =
    Undefined
  | Null
  | Boolean bool
  | Number number
  | String string
  | Array "json list"
  | Object "(string \<times> json) list"

definition isString :: "json \<Rightarrow> bool" where
  "isString v = (case v of String _ \<Rightarrow> True | _ \<Rightarrow> False)"

text \<open>
  \<open>weight\<close> is a lower bound of the length of any JSON text of a value: each scalar
  takes a character, a string its characters and quotes, a container its brackets.
\<close>

fun weight :: "json \<Rightarrow> nat" where
  "weight (String s) = Suc (length s)"
| "weight (Array xs) = Suc (sum_list (map weight xs))"
| "weight (Object kvs) = Suc (sum_list (map (\<lambda>kv. weight (snd kv)) kvs))"
| "weight _ = 1"

text \<open>
  \<open>JSON.parse\<close> is the host's and is a parameter of the model: a function from a text
  to the parsed value, or to the text of the exception it throws. What the model keeps of
  it is that a value is never bigger than the text it was parsed from.
\<close>

typedef host = "{p :: string \<Rightarrow> string + json. \<forall>s v. p s = Inr v \<longrightarrow> weight v \<le> length s}"
  morphisms JSON_parse Host
proof
  show "(\<lambda>s. Inl []) \<in> {p :: string \<Rightarrow> string + json. \<forall>s v. p s = Inr v \<longrightarrow> weight v \<le> length s}"
    by simp
qed

setup_lifting type_definition_host

text \<open>
  A parser given by a finite table of the texts it accepts, for running the converter on
  concrete input; every other text is a syntax error.
\<close>

lift_definition tableHost :: "(string \<times> json) list \<Rightarrow> host" is
  "\<lambda>tab s. case map_of tab s of
      Some v \<Rightarrow> if weight v \<le> length s then Inr v else Inl ''SyntaxError: Unexpected token''
    | None \<Rightarrow> Inl ''SyntaxError: Unexpected token''"
  by (auto split: option.splits if_splits)

lemma weight_member: "x \<in> set xs \<Longrightarrow> weight x \<le> sum_list (map weight xs)"
  by (induction xs) auto

lemma weight_entry: "(k, v) \<in> set kvs \<Longrightarrow> weight v \<le> sum_list (map (\<lambda>kv. weight (snd kv)) kvs)"
  by (induction kvs) auto

lemma JSON_parse_weight: "JSON_parse h s = Inr v \<Longrightarrow> weight v \<le> length s"
  using JSON_parse [of h] by simp

subsection \<open>Value Emitter\<close>

text \<open>The constant \<open>keyStr\<close> of the object branch, as a function of the key.\<close>

definition keyStr :: "string \<Rightarrow> string" where
  "keyStr key = (if needsQuotes key then [dquote] @ escapeString key @ [dquote] else key)"

text \<open>
  The \<open>for\<close> loops push one or more lines per element onto \<open>items\<close>; the lines are
  the concatenation, in order, of what each element pushes. The final \<open>String(value)\<close>
  of the source is reached by no JSON value.
\<close>

function valueToYaml :: "host \<Rightarrow> json \<Rightarrow> nat \<Rightarrow> string" where
  "valueToYaml h Null indent = ''null''"
| "valueToYaml h Undefined indent = ''null''"
| "valueToYaml h (Boolean b) indent = (if b then ''true'' else ''false'')"
| "valueToYaml h (Number n) indent =
     (case n of NaN \<Rightarrow> ''.nan'' | PosInfinity \<Rightarrow> ''.inf'' | NegInfinity \<Rightarrow> ''-.inf''
      | Finite text \<Rightarrow> text)"
| "valueToYaml h (String value) indent =
     (case JSON_parse h value of
        Inr parsed \<Rightarrow>
          if \<not> isString parsed then valueToYaml h parsed indent else formatString value
      | Inl err \<Rightarrow> formatString value)"
| "valueToYaml h (Array value) indent =
     (if length value = 0 then ''[]''
      else str_join [nl] (concat (map (\<lambda>item.
             let itemYaml = valueToYaml h item (indent + 2)
             in if str_includes itemYaml [nl] \<or> str_startsWith itemYaml '' ''
                then formatMultilineYaml itemYaml ''- '' (str_repeat '' '' indent)
                else [str_repeat '' '' indent @ ''- '' @ itemYaml]) value)))"
| "valueToYaml h (Object value) indent =
     (if length value = 0 then ''{}''
      else str_join [nl] (concat (map (\<lambda>(key, keyValue).
             let valueYaml = valueToYaml h keyValue (indent + 2)
             in if str_includes valueYaml [nl] \<or> str_startsWith valueYaml '' ''
                then formatMultilineYaml valueYaml (keyStr key @ '': '') (str_repeat '' '' indent)
                else [str_repeat '' '' indent @ keyStr key @ '': '' @ valueYaml]) value)))"
  by pat_completeness auto
termination
proof (relation "measure (\<lambda>(h, v, indent). weight v)", goal_cases)
  case 1
  show ?case by simp
next
  case (2 h v indent parsed)
  then show ?case by (simp add: JSON_parse_weight le_imp_less_Suc)
next
  case (3 h items indent item)
  then show ?case by (simp add: weight_member le_imp_less_Suc)
next
  case (4 h entries indent entry key keyValue)
  then have "(key, keyValue) \<in> set entries" by simp
  then show ?case by (simp add: weight_entry le_imp_less_Suc)
qed

text \<open>
  \<open>jsonToYaml\<close> throws \<open>new Error(`Failed to parse JSON: ${error}`)\<close> when the parser
  throws; \<open>Inl\<close> carries the message of that error.
\<close>

definition jsonToYaml :: "host \<Rightarrow> string \<Rightarrow> string + string" where
  "jsonToYaml h jsonString =
     (case JSON_parse h jsonString of
        Inr jsonObject \<Rightarrow> Inr (valueToYaml h jsonObject 0)
      | Inl error \<Rightarrow> Inl (''Failed to parse JSON: '' @ error))"

section \<open>The converter of the command-line script\<close>

text \<open>
  The script \<open>scripts/json2yaml.js\<close> carries its own copy of the converter.
  \<open>escapeString\<close>, \<open>needsQuotes\<close>, \<open>valueToYaml\<close> and \<open>jsonToYaml\<close> are the same
  text as in \<open>src/yamlConverter.ts\<close>; \<open>formatString\<close> and \<open>formatMultilineYaml\<close>
  differ, and are modelled here with the suffix \<open>_script\<close>. The copy of the converter
  that follows the driver in \<open>src/extension.ts\<close> has the script's
  \<open>formatMultilineYaml\<close> and the script's \<open>formatString\<close> without the replacement of
  control characters.
\<close>

definition unsupportedChars :: "cls list" where
  "unsupportedChars = [RANGE (CHR 0x00) (CHR 0x08), RANGE (CHR 0x0B) (CHR 0x1F), CH (CHR 0x7F)]"

definition formatString_script :: "string \<Rightarrow> string" where
  "formatString_script value =
     (if str_includes value [nl] \<or> str_includes value '': '' then
        (let lines = map (\<lambda>line. replace_class unsupportedChars '' '' line) (str_split nl value);
             chompingIndicator =
               (if str_endsWith value [nl]
                then (if str_endsWith value [nl, nl] then ''+'' else '''')
                else ''-'');
             lines = (if length lines > 0 \<and> last lines = [] then butlast lines else lines)
         in ''|'' @ chompingIndicator @ [nl] @ str_join [nl] lines)
      else
        (let escaped = escapeString value
         in if value = [] \<or> needsQuotes value \<or> escaped \<noteq> value
            then [dquote] @ escaped @ [dquote]
            else value))"

definition blockMarker :: regex where
  "blockMarker = Seq (Class [CH CHR ''|'']) (Opt (Class [CH CHR ''+'', CH CHR ''-'']))"

definition formatMultilineYaml_script :: "string \<Rightarrow> string \<Rightarrow> string \<Rightarrow> string list" where
  "formatMultilineYaml_script yamlValue prefix indentStr =
     (let lines = str_split nl yamlValue
      in if test_whole False blockMarker (hd lines)
         then [indentStr @ prefix @ hd lines] @ map (\<lambda>line. indentStr @ ''  '' @ line) (tl lines)
         else [indentStr @ prefix] @ lines)"

section \<open>The record driver of \<open>src/extension.ts\<close>\<close>

text \<open>
  The loop \<open>for (let i = 0; i < lines.length; i++)\<close> with the array \<open>yamlLines\<close> it
  pushes onto. In the \<open>catch\<close>, \<open>${error}\<close> prints the error thrown by \<open>jsonToYaml\<close>:
  \<open>Error: \<close> and its message.
\<close>

function convertLoop :: "host \<Rightarrow> string list \<Rightarrow> nat \<Rightarrow> string list \<Rightarrow> string list" where
  "convertLoop h lines i yamlLines =
     (if i < length lines then
        (let line = str_trim (lines ! i)
         in if line = [] then convertLoop h lines (i + 1) yamlLines
            else (case jsonToYaml h line of
                    Inr yamlContent \<Rightarrow> convertLoop h lines (i + 1) (yamlLines @ [yamlContent])
                  | Inl message \<Rightarrow>
                      convertLoop h lines (i + 1)
                        (yamlLines @
                         [''# Error converting line '' @ showNat (i + 1) @ '': '' @
                            ''Error: '' @ message,
                          ''# Original content: '' @ line])))
      else yamlLines)"
  by pat_completeness auto
termination
  by (relation "measure (\<lambda>(h, lines, i, yamlLines). length lines - i)") auto

declare convertLoop.simps [simp del]

definition convertJsonlToYaml :: "host \<Rightarrow> string \<Rightarrow> string" where
  "convertJsonlToYaml h jsonlText =
     str_join [nl, nl] (convertLoop h (str_split nl jsonlText) 0 [])"

section \<open>Vocabulary of the properties\<close>

text \<open>The ASCII lower-case form of a character, for comparing words without case.\<close>

definition lowerAscii :: "char \<Rightarrow> char" where
  "lowerAscii c =
     (if 65 \<le> (of_char c :: nat) \<and> (of_char c :: nat) \<le> 90
      then char_of ((of_char c :: nat) + 32) else c)"

text \<open>A string between double quotes, with the escaped body.\<close>

definition quoted :: "string \<Rightarrow> string" where
  "quoted s = [dquote] @ escapeString s @ [dquote]"

text \<open>
  What the driver appends for the line numbered \<open>n\<close> whose trimmed text is \<open>line\<close>:
  nothing for a blank line, the rendered record, or the two diagnostic entries.
\<close>

definition blocksOfLine :: "host \<Rightarrow> nat \<Rightarrow> string \<Rightarrow> string list" where
  "blocksOfLine h n line =
     (if line = [] then []
      else (case JSON_parse h line of
              Inr v \<Rightarrow> [valueToYaml h v 0]
            | Inl e \<Rightarrow>
                [''# Error converting line '' @ showNat n @ '': Error: Failed to parse JSON: '' @ e,
                 ''# Original content: '' @ line]))"

text \<open>
  The record driver as the specification words it: a record that fails is replaced by one
  block of two lines, and all blocks are joined with a blank line between them.
\<close>

definition diagnosticBlock_spec :: "nat \<Rightarrow> string \<Rightarrow> string \<Rightarrow> string" where
  "diagnosticBlock_spec n error line =
     ''# Error converting line '' @ showNat n @ '': '' @ error @ [nl] @
     ''# Original content: '' @ line"

definition renderRecordStream_spec :: "host \<Rightarrow> string \<Rightarrow> string" where
  "renderRecordStream_spec h jsonlText =
     str_join [nl, nl]
       (concat (map (\<lambda>(j, line).
          if str_trim line = [] then []
          else (case jsonToYaml h (str_trim line) of
                  Inr yamlContent \<Rightarrow> [yamlContent]
                | Inl message \<Rightarrow>
                    [diagnosticBlock_spec (j + 1) (''Error: '' @ message) (str_trim line)]))
        (enumerate 0 (str_split nl jsonlText))))"

text \<open>
  The reflow as the specification words it: a first line that is one of the three block
  markers shares the line of the prefix and the other lines are indented by two more
  spaces; any other value follows the prefix line unchanged.
\<close>

definition formatMultilineYaml_spec :: "string \<Rightarrow> string \<Rightarrow> string \<Rightarrow> string list" where
  "formatMultilineYaml_spec yamlValue prefix indentStr =
     (let lines = str_split nl yamlValue; marker = hd lines
      in if marker = ''|'' \<or> marker = ''|+'' \<or> marker = ''|-''
         then (indentStr @ prefix @ marker) # map (\<lambda>line. indentStr @ ''  '' @ line) (tl lines)
         else (indentStr @ prefix) # lines)"

text \<open>
  \<open>Number.prototype.toString\<close> gives a finite number a text that starts with a digit or a
  minus sign. The reflow needs less of it: that the text does not start with \<open>|\<close>.
\<close>

definition numberTextOk :: "json \<Rightarrow> bool" where
  "numberTextOk v = (case v of Number (Finite t) \<Rightarrow> \<not> str_startsWith t ''|'' | _ \<Rightarrow> True)"

text \<open>A text that starts with neither \<open>|-\<close> nor \<open>|+\<close>.\<close>

definition noIndicatorStart :: "string \<Rightarrow> bool" where
  "noIndicatorStart y = (\<not> str_startsWith y ''|-'' \<and> \<not> str_startsWith y ''|+'')"

section \<open>Facts about the host operations\<close>

lemma str_startsWith_iff: "str_startsWith s p \<longleftrightarrow> (\<exists>t. s = p @ t)"
  by (induction s p rule: str_startsWith.induct) auto

lemma str_endsWith_iff: "str_endsWith s p \<longleftrightarrow> (\<exists>t. s = t @ p)"
proof -
  have "(\<exists>t. rev s = rev p @ t) \<longleftrightarrow> (\<exists>t. s = t @ p)"
  proof
    assume "\<exists>t. rev s = rev p @ t"
    then obtain t where "rev s = rev p @ t" ..
    then have "rev (rev s) = rev (rev p @ t)" by simp
    then have "s = rev t @ p" by simp
    then show "\<exists>t. s = t @ p" ..
  next
    assume "\<exists>t. s = t @ p"
    then obtain t where "s = t @ p" ..
    then have "rev s = rev p @ rev t" by simp
    then show "\<exists>t. rev s = rev p @ t" ..
  qed
  then show ?thesis by (simp add: str_endsWith_def str_startsWith_iff)
qed

lemma str_includes_char: "str_includes s [c] \<longleftrightarrow> c \<in> set s"
  by (induction s) (auto simp: str_startsWith_iff)

lemma str_split_not_Nil: "str_split sep s \<noteq> []"
  by (induction s) auto

lemma str_split_no_sep: "sep \<notin> set s \<Longrightarrow> str_split sep s = [s]"
  by (induction s) auto

lemma str_split_append_sep:
  "sep \<notin> set a \<Longrightarrow> str_split sep (a @ sep # rest) = a # str_split sep rest"
  by (induction a) auto

lemma str_split_snoc_sep: "str_split sep (s @ [sep]) = str_split sep s @ [[]]"
  by (induction s) (auto simp: str_split_not_Nil)

lemma str_split_snoc_other:
  "c \<noteq> sep \<Longrightarrow>
   str_split sep (s @ [c]) = butlast (str_split sep s) @ [last (str_split sep s) @ [c]]"
proof (induction s)
  case Nil
  then show ?case by simp
next
  case (Cons x xs)
  obtain l ls where sp: "str_split sep xs = l # ls"
    using str_split_not_Nil [of sep xs] by (cases "str_split sep xs") auto
  from Cons sp show ?case by (cases ls) auto
qed

lemma str_split_last_empty: "last (str_split sep s) = [] \<longleftrightarrow> s = [] \<or> last s = sep"
proof (cases s rule: rev_cases)
  case Nil
  then show ?thesis by simp
next
  case (snoc t c)
  then show ?thesis
    by (cases "c = sep") (simp_all add: str_split_snoc_sep str_split_snoc_other)
qed

lemma str_join_split: "str_join [sep] (str_split sep s) = s"
proof (induction s)
  case Nil
  show ?case by simp
next
  case (Cons c cs)
  obtain l ls where sp: "str_split sep cs = l # ls"
    using str_split_not_Nil [of sep cs] by (cases "str_split sep cs") auto
  show ?case
  proof (cases "c = sep")
    case True
    with Cons sp show ?thesis by simp
  next
    case False
    with Cons sp show ?thesis by (cases ls) auto
  qed
qed

lemma hd_str_split_prefix: "\<exists>t. s = hd (str_split sep s) @ t"
  by (induction s) auto

lemma str_join_Cons_prefix: "\<exists>t. str_join sep (a # zs) = a @ t"
  by (cases zs) auto

lemma showNat_1: "showNat (Suc 0) = ''1''"
  by (simp add: showNat.simps [of "Suc 0"] digitChar_def char_of_eq_iff)

section \<open>Facts about the regular expressions\<close>

lemma test_start_Class: "test_start ci (Class ks) s \<longleftrightarrow> s \<noteq> [] \<and> in_class ks (hd s)"
  by (cases s) (auto simp: test_start_def)

lemma iterate_Class:
  "length s < n \<Longrightarrow>
   [] \<in> set (iterate n (residuals ci (Class ks)) s) \<longleftrightarrow> s \<noteq> [] \<and> list_all (in_class ks) s"
proof (induction n arbitrary: s)
  case 0
  then show ?case by simp
next
  case (Suc n)
  show ?case
  proof (cases s)
    case Nil
    then show ?thesis by simp
  next
    case (Cons c t)
    with Suc.prems have "length t < n" by simp
    from Suc.IH [OF this] Cons show ?thesis by auto
  qed
qed

lemma test_whole_Plus_Class:
  "test_whole ci (Plus (Class ks)) s \<longleftrightarrow> s \<noteq> [] \<and> list_all (in_class ks) s"
  by (simp add: test_whole_def iterate_Class del: iterate.simps)

lemma Lit_whole: "[] \<in> set (residuals ci (Lit w) s) \<longleftrightarrow> map (canon ci) s = map (canon ci) w"
proof
  assume "[] \<in> set (residuals ci (Lit w) s)"
  then have a: "length w \<le> length s" "map (canon ci) (take (length w) s) = map (canon ci) w"
    "drop (length w) s = []"
    by (auto split: if_splits)
  then have "take (length w) s = s" by simp
  with a show "map (canon ci) s = map (canon ci) w" by simp
next
  assume a: "map (canon ci) s = map (canon ci) w"
  then have "length s = length w" by (rule map_eq_imp_length_eq)
  with a show "[] \<in> set (residuals ci (Lit w) s)" by simp
qed

lemma canon_lower:
  assumes "97 \<le> (of_char p :: nat)" "(of_char p :: nat) \<le> 122"
  shows "canon True c = canon True p \<longleftrightarrow> lowerAscii c = p"
proof -
  define n m :: nat where "n = of_char c" and "m = of_char p"
  have n: "n < 256" by (simp add: n_def)
  have "n - 32 < 256" using n by simp
  then have "(n - 32) mod 256 = n - 32" by (rule mod_less)
  then have cc: "(of_char (canon True c) :: nat) = (if 97 \<le> n \<and> n \<le> 122 then n - 32 else n)"
    by (simp add: canon_def n_def)
  have "m - 32 < 256" using assms by (simp add: m_def)
  then have "(m - 32) mod 256 = m - 32" by (rule mod_less)
  then have cp: "(of_char (canon True p) :: nat) = m - 32"
    using assms by (simp add: canon_def m_def)
  have "n \<le> 90 \<Longrightarrow> (n + 32) mod 256 = n + 32" by simp
  then have lc: "(of_char (lowerAscii c) :: nat) = (if 65 \<le> n \<and> n \<le> 90 then n + 32 else n)"
    by (simp add: lowerAscii_def n_def)
  have "canon True c = canon True p \<longleftrightarrow> (of_char (canon True c) :: nat) = of_char (canon True p)"
    by simp
  also have "\<dots> \<longleftrightarrow> (of_char (lowerAscii c) :: nat) = m"
    unfolding cc cp lc using assms by (auto simp: m_def)
  also have "\<dots> \<longleftrightarrow> lowerAscii c = p" by (simp add: m_def)
  finally show ?thesis .
qed

lemma map_canon_lower:
  "\<forall>p\<in>set w. 97 \<le> (of_char p :: nat) \<and> (of_char p :: nat) \<le> 122 \<Longrightarrow>
   map (canon True) s = map (canon True) w \<longleftrightarrow> map lowerAscii s = w"
proof (induction s arbitrary: w)
  case Nil
  then show ?case by auto
next
  case (Cons c cs)
  show ?case
  proof (cases w)
    case Nil
    then show ?thesis by simp
  next
    case (Cons p ps)
    with Cons.prems Cons.IH [of ps] show ?thesis by (simp add: canon_lower)
  qed
qed

lemma test_whole_reservedWord:
  "test_whole True reservedWord s \<longleftrightarrow>
   map lowerAscii s \<in> set [''true'', ''false'', ''null'', ''yes'', ''no'', ''on'', ''off'']"
proof -
  have w: "\<And>w. w \<in> set [''true'', ''false'', ''null'', ''yes'', ''no'', ''on'', ''off''] \<Longrightarrow>
      ([] \<in> set (residuals True (Lit w) s)) = (map lowerAscii s = w)"
    unfolding Lit_whole by (rule map_canon_lower) auto
  show ?thesis
    unfolding test_whole_def reservedWord_def residuals.simps(3) set_append Un_iff
    using w [of "''true''"] w [of "''false''"] w [of "''null''"] w [of "''yes''"]
      w [of "''no''"] w [of "''on''"] w [of "''off''"]
    by simp
qed

lemma test_whole_blockMarker:
  "test_whole False blockMarker l \<longleftrightarrow> l = ''|'' \<or> l = ''|+'' \<or> l = ''|-''"
proof (cases l)
  case Nil
  then show ?thesis by (simp add: test_whole_def blockMarker_def)
next
  case l1: (Cons a t)
  show ?thesis
  proof (cases t)
    case Nil
    with l1 show ?thesis by (auto simp: test_whole_def blockMarker_def in_class_def)
  next
    case l2: (Cons b u)
    with l1 show ?thesis
      by (cases u) (auto simp: test_whole_def blockMarker_def in_class_def)
  qed
qed

lemma needsQuotes_char:
  "needsQuotes s \<longleftrightarrow>
     (s \<noteq> [] \<and> (isSpace (hd s) \<or> hd s \<in> set ''-:{}[],&*#?|<>=!%@`'')) \<or>
     (s \<noteq> [] \<and> (isDigit (hd s) \<or> hd s = CHR ''-'')) \<or>
     map lowerAscii s \<in> set [''true'', ''false'', ''null'', ''yes'', ''no'', ''on'', ''off''] \<or>
     (s \<noteq> [] \<and> list_all (\<lambda>c. isDigit c \<or> c = CHR ''.'') s)"
proof -
  have a: "in_class [WS, CH CHR ''-'', CH CHR '':'', CH CHR ''{'', CH CHR ''}'',
     CH CHR ''['', CH CHR '']'', CH CHR '','', CH CHR ''&'', CH CHR ''*'', CH CHR ''#'',
     CH CHR ''?'', CH CHR ''|'', CH CHR ''<'', CH CHR ''>'', CH CHR ''='', CH CHR ''!'',
     CH CHR ''%'', CH CHR ''@'', CH CHR 0x60] c
     \<longleftrightarrow> isSpace c \<or> c \<in> set ''-:{}[],&*#?|<>=!%@`''" for c
    by (simp add: in_class_def)
  have b: "in_class [DIGIT, CH CHR ''-''] c \<longleftrightarrow> isDigit c \<or> c = CHR ''-''" for c
    by (simp add: in_class_def)
  have d: "in_class [DIGIT, CH CHR ''.''] = (\<lambda>c. isDigit c \<or> c = CHR ''.'')"
    by (rule ext) (simp add: in_class_def)
  show ?thesis
    by (simp only: needsQuotes_def specialStart_def numberStart_def digitsAndDots_def
      test_start_Class test_whole_Plus_Class test_whole_reservedWord a b d)
qed

section \<open>Scalar Classifier\<close>

text \<open>
  C8. \<open>needsQuotes s\<close> holds exactly when the first character of \<open>s\<close> is white space or
  one of \<open>- : { } [ ] , & * # ? | < > = ! % @ `\<close>, or the first character is a digit or
  \<open>-\<close>, or \<open>s\<close> is one of the words true, false, null, yes, no, on, off in any mix of
  upper and lower case, or \<open>s\<close> is a non-empty run of digits and dots. In particular it
  holds of \<open>true\<close>, \<open>123\<close> and \<open>-5\<close> and not of \<open>hello\<close>.
\<close>

theorem needsQuotes_iff:
  "(needsQuotes s \<longleftrightarrow>
      (s \<noteq> [] \<and> (isSpace (hd s) \<or> hd s \<in> set ''-:{}[],&*#?|<>=!%@`'')) \<or>
      (s \<noteq> [] \<and> (isDigit (hd s) \<or> hd s = CHR ''-'')) \<or>
      map lowerAscii s \<in> set [''true'', ''false'', ''null'', ''yes'', ''no'', ''on'', ''off''] \<or>
      (s \<noteq> [] \<and> list_all (\<lambda>c. isDigit c \<or> c = CHR ''.'') s))
   \<and> needsQuotes ''true'' \<and> needsQuotes ''123'' \<and> needsQuotes ''-5'' \<and> \<not> needsQuotes ''hello''"
proof -
  have t1: "needsQuotes ''true''" by (simp add: needsQuotes_char lowerAscii_def)
  have t2: "needsQuotes ''123''" by (simp add: needsQuotes_char isDigit_def)
  have t3: "needsQuotes ''-5''" by (simp add: needsQuotes_char)
  have t4: "\<not> needsQuotes ''hello''"
    by (simp add: needsQuotes_char lowerAscii_def isDigit_def isSpace_def)
  from needsQuotes_char [of s] t1 t2 t3 t4 show ?thesis by blast
qed

theorem needsQuotes_iff_witness:
  "needsQuotes ''.5'' \<and> needsQuotes ''Yes'' \<and> needsQuotes '' x'' \<and> \<not> needsQuotes ''New York''"
  using needsQuotes_iff [of "''.5''"] needsQuotes_iff [of "''Yes''"]
    needsQuotes_iff [of "'' x''"] needsQuotes_iff [of "''New York''"]
  by (simp add: lowerAscii_def isDigit_def isSpace_def char_of_eq_iff)

section \<open>String Formatter\<close>

text \<open>
  The script's formatter chooses the chomping indicator from the tail of the string: the
  marker line of its block literal is \<open>|+\<close> when the string ends with two newlines, \<open>|\<close>
  when it ends with one, and \<open>|-\<close> when it does not end with a newline.
\<close>

lemma formatString_script_marker:
  assumes "str_includes value [nl] \<or> str_includes value '': ''"
  shows "hd (str_split nl (formatString_script value)) =
         (if (\<exists>t. value = t @ [nl, nl]) then ''|+''
          else if (\<exists>t. value = t @ [nl]) then ''|''
          else ''|-'')"
proof -
  have "\<exists>rest. formatString_script value =
      (if str_endsWith value [nl]
       then (if str_endsWith value [nl, nl] then ''|+'' else ''|'') else ''|-'') @ nl # rest"
    using assms by (auto simp: formatString_script_def Let_def)
  then obtain rest where r: "formatString_script value =
      (if str_endsWith value [nl]
       then (if str_endsWith value [nl, nl] then ''|+'' else ''|'') else ''|-'') @ nl # rest" ..
  have e2: "str_endsWith value [nl, nl] \<Longrightarrow> str_endsWith value [nl]"
    by (auto simp: str_endsWith_iff)
  show ?thesis
    unfolding r using e2
    by (auto simp: str_split_append_sep str_endsWith_iff [symmetric] simp del: append_assoc)
qed

text \<open>
  For a string that ends with a newline the script's formatter drops the empty last piece
  of the split: the block content is the lines of the string before that newline.
\<close>

lemma formatString_script_drops_last:
  "formatString_script (v @ [nl]) =
     ''|'' @ (if str_endsWith v [nl] then ''+'' else '''') @ [nl] @
     str_join [nl] (map (replace_class unsupportedChars '' '') (str_split nl v))"
proof -
  have inc: "str_includes (v @ [nl]) [nl]" by (simp add: str_includes_char)
  have e1: "str_endsWith (v @ [nl]) [nl]" by (simp add: str_endsWith_iff)
  have e2: "str_endsWith (v @ [nl]) [nl, nl] \<longleftrightarrow> str_endsWith v [nl]"
    by (auto simp: str_endsWith_iff)
  have r: "replace_class unsupportedChars '' '' [] = []" by (simp add: replace_class_def)
  show ?thesis
    unfolding formatString_script_def Let_def
    by (simp add: inc e1 e2 str_split_snoc_sep r str_split_not_Nil)
qed

text \<open>
  The formatter of \<open>src/yamlConverter.ts\<close> pops nothing: when the string ends with a
  newline the loop does not run, and when it does not, the last piece of the split is not
  empty. Its block literal is the marker \<open>|\<close>, a newline and the string itself.
\<close>

lemma formatString_block:
  assumes "str_includes value [nl] \<or> str_includes value '': ''"
  shows "formatString value = ''|'' @ [nl] @ value"
proof -
  from assms have ne: "value \<noteq> []" by auto
  have "popTrailing (str_endsWith value [nl]) (str_split nl value) = str_split nl value"
  proof (cases "str_endsWith value [nl]")
    case True
    then show ?thesis by (simp add: popTrailing.simps)
  next
    case False
    have "last value \<noteq> nl"
    proof
      assume "last value = nl"
      with ne have "value = butlast value @ [nl]"
        using append_butlast_last_id [of "value"] by simp
      then have "str_endsWith value [nl]" unfolding str_endsWith_iff ..
      with False show False ..
    qed
    with ne have "last (str_split nl value) \<noteq> []" by (simp add: str_split_last_empty)
    then show ?thesis by (simp add: popTrailing.simps)
  qed
  with assms show ?thesis
    by (simp add: formatString_def Let_def str_join_split)
qed

text \<open>
  C1. The formatter of \<open>src/yamlConverter.ts\<close> writes the marker \<open>|\<close> with no chomping
  indicator whatever the tail of the string: for \<open>a: b\<close>, which does not end with a
  newline, and for a string that ends with two newlines. The script's formatter writes
  \<open>|-\<close> and \<open>|+\<close> there.
\<close>

theorem formatString_marker_has_no_indicator:
  "formatString ''a: b'' = ''|'' @ [nl] @ ''a: b'' \<and>
   formatString (''a'' @ [nl, nl]) = ''|'' @ [nl] @ ''a'' @ [nl, nl] \<and>
   formatString_script ''a: b'' = ''|-'' @ [nl] @ ''a: b'' \<and>
   formatString_script (''a'' @ [nl, nl]) = ''|+'' @ [nl] @ ''a'' @ [nl]"
  by (simp add: formatString_def formatString_script_def str_endsWith_def popTrailing.simps
      replace_class_def unsupportedChars_def in_class_def)

text \<open>
  C3. The formatter of \<open>src/yamlConverter.ts\<close> returns the empty string for the empty
  string, so an entry whose value is the empty string is rendered with nothing after the
  colon. The script's formatter returns the two double quotes.
\<close>

theorem formatString_empty_is_bare:
  "formatString [] = [] \<and>
   valueToYaml (tableHost []) (Object [(''a'', String [])]) 0 = ''a: '' \<and>
   formatString_script [] = [dquote, dquote]"
  by (simp add: formatString_def formatString_script_def escapeString_def JSON_stringify_def
      needsQuotes_char tableHost.rep_eq keyStr_def lowerAscii_def isSpace_def isDigit_def
      str_repeat_def)

text \<open>
  C5. The formatter of \<open>src/yamlConverter.ts\<close> keeps the empty last piece of the split
  when the string ends with a newline: the block content of \<open>a\<close> followed by a newline
  is \<open>a\<close> followed by a newline. The script's formatter drops the piece.
\<close>

theorem formatString_keeps_split_artifact:
  "formatString (''a'' @ [nl]) = ''|'' @ [nl] @ ''a'' @ [nl] \<and>
   formatString_script (''a'' @ [nl]) = ''|'' @ [nl] @ ''a''"
  by (simp add: formatString_def formatString_script_def str_endsWith_def popTrailing.simps
      replace_class_def unsupportedChars_def in_class_def)

section \<open>Indentation Reflow\<close>

text \<open>
  The script's reflow recognises the three markers: the prefix and the marker share the
  first line and every further line is indented by two more spaces; any other value
  follows the prefix line unchanged.
\<close>

lemma formatMultilineYaml_script_reflow:
  "formatMultilineYaml_script yamlValue prefix indentStr =
     (if hd (str_split nl yamlValue) \<in> {''|'', ''|+'', ''|-''}
      then (indentStr @ prefix @ hd (str_split nl yamlValue)) #
           map (\<lambda>line. indentStr @ ''  '' @ line) (tl (str_split nl yamlValue))
      else (indentStr @ prefix) # str_split nl yamlValue)"
  by (simp add: formatMultilineYaml_script_def test_whole_blockMarker Let_def)

text \<open>
  The emitter of \<open>src/yamlConverter.ts\<close> renders no value that starts with \<open>|-\<close> or
  \<open>|+\<close>: its formatter writes the marker \<open>|\<close> alone, a quoted string starts with a double
  quote, a bare string or key does not start with \<open>|\<close>, and the first line of an array or
  of an object starts with the indent, the dash or the key.
\<close>

lemma noIndicatorStart_Cons: "c \<noteq> CHR ''|'' \<Longrightarrow> noIndicatorStart (c # t)"
  by (simp add: noIndicatorStart_def)

lemma noIndicatorStart_indent:
  assumes "noIndicatorStart r"  "r \<noteq> []" "hd r \<noteq> CHR ''|''"
  shows "noIndicatorStart (str_repeat '' '' n @ r @ t)"
proof (cases n)
  case 0
  with assms show ?thesis by (cases r) (simp_all add: str_repeat_def noIndicatorStart_def)
next
  case (Suc m)
  then show ?thesis by (simp add: str_repeat_def noIndicatorStart_def)
qed

lemma keyStr_start: "keyStr key @ '': '' \<noteq> [] \<and> hd (keyStr key @ '': '') \<noteq> CHR ''|''"
proof (cases "needsQuotes key")
  case True
  then show ?thesis by (simp add: keyStr_def)
next
  case False
  then show ?thesis
    by (cases key) (auto simp: keyStr_def needsQuotes_char)
qed

lemma formatString_start: "noIndicatorStart (formatString value)"
proof (cases "str_includes value [nl] \<or> str_includes value '': ''")
  case True
  then show ?thesis by (simp add: formatString_block noIndicatorStart_def)
next
  case False
  show ?thesis
  proof (cases "needsQuotes value \<or> escapeString value \<noteq> value")
    case True
    with False show ?thesis by (simp add: formatString_def noIndicatorStart_def)
  next
    case plain: False
    with False have f: "formatString value = value" by (simp add: formatString_def)
    from plain have "\<not> needsQuotes value" by simp
    then show ?thesis unfolding f
      by (cases "value") (auto simp: needsQuotes_char noIndicatorStart_def)
  qed
qed

lemma valueToYaml_start:
  assumes host: "\<forall>s w. JSON_parse h s = Inr w \<longrightarrow> numberTextOk w"
    and "numberTextOk v"
  shows "noIndicatorStart (valueToYaml h v i)"
  using assms
proof (induction h v i rule: valueToYaml.induct)
  case (1 h indent)
  show ?case by (simp add: noIndicatorStart_def)
next
  case (2 h indent)
  show ?case by (simp add: noIndicatorStart_def)
next
  case (3 h b indent)
  show ?case by (simp add: noIndicatorStart_def)
next
  case (4 h n indent)
  from 4(2) show ?case
    by (cases n) (auto simp: noIndicatorStart_def numberTextOk_def str_startsWith_iff)
next
  case (5 h s indent)
  show ?case
  proof (cases "JSON_parse h s")
    case (Inl e)
    then show ?thesis by (simp add: formatString_start)
  next
    case (Inr parsed)
    show ?thesis
    proof (cases "isString parsed")
      case True
      with Inr show ?thesis by (simp add: formatString_start)
    next
      case False
      from 5(2) Inr have "numberTextOk parsed" by blast
      from 5(1) [OF Inr False 5(2) this] Inr False show ?thesis by simp
    qed
  qed
next
  case (6 h items indent)
  show ?case
  proof (cases items)
    case Nil
    then show ?thesis by (simp add: noIndicatorStart_def)
  next
    case (Cons x xs)
    define y where "y = valueToYaml h x (indent + 2)"
    define rest where "rest = concat (map (\<lambda>item.
             let itemYaml = valueToYaml h item (indent + 2)
             in if str_includes itemYaml [nl] \<or> str_startsWith itemYaml '' ''
                then formatMultilineYaml itemYaml ''- '' (str_repeat '' '' indent)
                else [str_repeat '' '' indent @ ''- '' @ itemYaml]) xs)"
    have "\<exists>r zs. valueToYaml h (Array items) indent =
        str_join [nl] ((str_repeat '' '' indent @ ''- '' @ r) # zs)"
      unfolding Cons
      by (auto simp: Let_def formatMultilineYaml_def)
    then obtain r zs where "valueToYaml h (Array items) indent =
        str_join [nl] ((str_repeat '' '' indent @ ''- '' @ r) # zs)" by blast
    moreover obtain t where "str_join [nl] ((str_repeat '' '' indent @ ''- '' @ r) # zs) =
        (str_repeat '' '' indent @ ''- '' @ r) @ t"
      using str_join_Cons_prefix by blast
    ultimately have "valueToYaml h (Array items) indent =
        str_repeat '' '' indent @ ''- '' @ (r @ t)" by simp
    moreover have "noIndicatorStart (str_repeat '' '' indent @ ''- '' @ (r @ t))"
      by (rule noIndicatorStart_indent) (simp_all add: noIndicatorStart_def)
    ultimately show ?thesis by simp
  qed
next
  case (7 h entries indent)
  show ?case
  proof (cases entries)
    case Nil
    then show ?thesis by (simp add: noIndicatorStart_def)
  next
    case (Cons x xs)
    obtain key keyValue where x: "x = (key, keyValue)" by (cases x)
    have "\<exists>r zs. valueToYaml h (Object entries) indent =
        str_join [nl] ((str_repeat '' '' indent @ (keyStr key @ '': '') @ r) # zs)"
      unfolding Cons x
      by (auto simp: Let_def formatMultilineYaml_def)
    then obtain r zs where "valueToYaml h (Object entries) indent =
        str_join [nl] ((str_repeat '' '' indent @ (keyStr key @ '': '') @ r) # zs)" by blast
    moreover obtain t where
      "str_join [nl] ((str_repeat '' '' indent @ (keyStr key @ '': '') @ r) # zs) =
        (str_repeat '' '' indent @ (keyStr key @ '': '') @ r) @ t"
      using str_join_Cons_prefix by blast
    ultimately have "valueToYaml h (Object entries) indent =
        str_repeat '' '' indent @ (keyStr key @ '': '') @ (r @ t)" by simp
    moreover have "noIndicatorStart (str_repeat '' '' indent @ (keyStr key @ '': '') @ (r @ t))"
    proof (rule noIndicatorStart_indent)
      from keyStr_start [of key] show "keyStr key @ '': '' \<noteq> []" "hd (keyStr key @ '': '') \<noteq> CHR ''|''"
        by blast+
      then show "noIndicatorStart (keyStr key @ '': '')"
        by (cases "keyStr key @ '': ''") (simp_all add: noIndicatorStart_def)
    qed
    ultimately show ?thesis by simp
  qed
qed

lemma formatMultilineYaml_on_rendered:
  assumes "noIndicatorStart yamlValue"
  shows "formatMultilineYaml yamlValue prefix indentStr =
         formatMultilineYaml_spec yamlValue prefix indentStr"
proof -
  obtain t where t: "yamlValue = hd (str_split nl yamlValue) @ t"
    using hd_str_split_prefix by blast
  have a: "hd (str_split nl yamlValue) \<noteq> ''|-''"
  proof
    assume "hd (str_split nl yamlValue) = ''|-''"
    with t have "yamlValue = ''|-'' @ t" by simp
    then have "str_startsWith yamlValue ''|-''" unfolding str_startsWith_iff ..
    with assms show False by (simp add: noIndicatorStart_def)
  qed
  have b: "hd (str_split nl yamlValue) \<noteq> ''|+''"
  proof
    assume "hd (str_split nl yamlValue) = ''|+''"
    with t have "yamlValue = ''|+'' @ t" by simp
    then have "str_startsWith yamlValue ''|+''" unfolding str_startsWith_iff ..
    with assms show False by (simp add: noIndicatorStart_def)
  qed
  from a b show ?thesis
    by (simp add: formatMultilineYaml_def formatMultilineYaml_spec_def Let_def)
qed

text \<open>
  C4. The reflow puts a first line that is one of the markers \<open>|\<close>, \<open>|+\<close>, \<open>|-\<close> after
  the prefix on the first output line and indents every other line of the value by two
  more spaces; for any other value it puts the prefix alone on the first line and the
  lines of the value after it, unchanged. The script's reflow does so on every text. The
  reflow of \<open>src/yamlConverter.ts\<close>, which tests for \<open>|\<close> alone, does so on every value
  that the emitter of that file renders, at every indent, for every parser that gives
  finite numbers a text that does not start with \<open>|\<close>.
\<close>

theorem formatMultilineYaml_reflow:
  assumes "\<forall>s w. JSON_parse h s = Inr w \<longrightarrow> numberTextOk w" and "numberTextOk v"
  shows "formatMultilineYaml (valueToYaml h v i) prefix indentStr =
           formatMultilineYaml_spec (valueToYaml h v i) prefix indentStr \<and>
         formatMultilineYaml_script yamlValue prefix indentStr =
           formatMultilineYaml_spec yamlValue prefix indentStr"
proof -
  from assms have "noIndicatorStart (valueToYaml h v i)" by (rule valueToYaml_start)
  then have "formatMultilineYaml (valueToYaml h v i) prefix indentStr =
      formatMultilineYaml_spec (valueToYaml h v i) prefix indentStr"
    by (rule formatMultilineYaml_on_rendered)
  moreover have "formatMultilineYaml_script yamlValue prefix indentStr =
      formatMultilineYaml_spec yamlValue prefix indentStr"
    by (simp add: formatMultilineYaml_script_def formatMultilineYaml_spec_def
        test_whole_blockMarker Let_def)
  ultimately show ?thesis ..
qed

theorem formatMultilineYaml_reflow_witness:
  "numberTextOk (String ''a: b'') \<and>
   valueToYaml (tableHost []) (String ''a: b'') 2 = ''|'' @ [nl] @ ''a: b'' \<and>
   formatMultilineYaml (valueToYaml (tableHost []) (String ''a: b'') 2) ''k: '' ''  '' =
     [''  k: |'', ''    a: b''] \<and>
   numberTextOk (Object [(''n'', Number (Finite ''1''))]) \<and>
   valueToYaml (tableHost []) (Object [(''n'', Number (Finite ''1''))]) 2 = ''  n: 1'' \<and>
   formatMultilineYaml (valueToYaml (tableHost []) (Object [(''n'', Number (Finite ''1''))]) 2)
     ''k: '' '''' = [''k: '', ''  n: 1''] \<and>
   formatMultilineYaml_script (''|-'' @ [nl] @ ''x'') ''k: '' ''  '' = [''  k: |-'', ''    x'']"
proof -
  have h: "\<forall>s w. JSON_parse (tableHost []) s = Inr w \<longrightarrow> numberTextOk w"
    by (simp add: tableHost.rep_eq)
  have n1: "numberTextOk (String ''a: b'')" by (simp add: numberTextOk_def)
  have n2: "numberTextOk (Object [(''n'', Number (Finite ''1''))])" by (simp add: numberTextOk_def)
  have v1: "valueToYaml (tableHost []) (String ''a: b'') 2 = ''|'' @ [nl] @ ''a: b''"
    by (simp add: tableHost.rep_eq formatString_block)
  have k: "keyStr ''n'' = ''n''"
    by (simp add: keyStr_def needsQuotes_char lowerAscii_def isDigit_def isSpace_def)
  have v2: "valueToYaml (tableHost []) (Object [(''n'', Number (Finite ''1''))]) 2 = ''  n: 1''"
    by (simp add: k str_repeat_def numeral_2_eq_2)
  have s1: "formatMultilineYaml_spec (''|'' @ [nl] @ ''a: b'') ''k: '' ''  '' =
      [''  k: |'', ''    a: b'']"
    by (simp add: formatMultilineYaml_spec_def)
  have s2: "formatMultilineYaml_spec ''  n: 1'' ''k: '' '''' = [''k: '', ''  n: 1'']"
    by (simp add: formatMultilineYaml_spec_def)
  have s3: "formatMultilineYaml_spec (''|-'' @ [nl] @ ''x'') ''k: '' ''  '' =
      [''  k: |-'', ''    x'']"
    by (simp add: formatMultilineYaml_spec_def)
  note r1 = formatMultilineYaml_reflow [OF h n1, of 2 "''k: ''" "''  ''" "''|-'' @ [nl] @ ''x''"]
  note r2 = formatMultilineYaml_reflow [OF h n2, of 2 "''k: ''" "''''" "''|-'' @ [nl] @ ''x''"]
  from r1 have c1: "formatMultilineYaml (valueToYaml (tableHost []) (String ''a: b'') 2)
      ''k: '' ''  '' = [''  k: |'', ''    a: b'']"
    unfolding v1 s1 by blast
  from r1 have c3: "formatMultilineYaml_script (''|-'' @ [nl] @ ''x'') ''k: '' ''  '' =
      [''  k: |-'', ''    x'']"
    unfolding s3 by blast
  from r2 have c2: "formatMultilineYaml
      (valueToYaml (tableHost []) (Object [(''n'', Number (Finite ''1''))]) 2) ''k: '' '''' =
      [''k: '', ''  n: 1'']"
    unfolding v2 s2 by blast
  from n1 v1 c1 n2 v2 c2 c3 show ?thesis by blast
qed

text \<open>
  On a text that the emitter of \<open>src/yamlConverter.ts\<close> does not render, the reflow of
  that file and the script's differ: a first line \<open>|-\<close> is not taken for a marker.
\<close>

lemma formatMultilineYaml_other_text:
  "formatMultilineYaml (''|-'' @ [nl] @ ''x'') ''k: '' ''  '' = [''  k: '', ''|-'', ''x'']"
  by (simp add: formatMultilineYaml_def)

section \<open>Value Emitter\<close>

text \<open>
  C7. When the text of a string value parses to a value that is not a string, the emitter
  renders that value in place of the string, at the same indent. The parsed value is
  smaller than the string it came from, and the elements of an array and the values of an
  object are smaller than the container, so the recursion of \<open>valueToYaml\<close> is
  well founded: \<open>weight\<close> is the measure of its termination proof.
\<close>

theorem valueToYaml_unwraps_json_text:
  assumes "JSON_parse h s = Inr v" and "\<not> isString v"
  shows "valueToYaml h (String s) i = valueToYaml h v i \<and>
         weight v < weight (String s) \<and>
         list_all (\<lambda>x. weight x < weight (Array xs)) xs \<and>
         list_all (\<lambda>kv. weight (snd kv) < weight (Object kvs)) kvs"
proof -
  have a: "list_all (\<lambda>x. weight x < weight (Array xs)) xs"
    by (simp add: list_all_iff weight_member le_imp_less_Suc)
  have b: "list_all (\<lambda>kv. weight (snd kv) < weight (Object kvs)) kvs"
    using weight_entry [of _ _ kvs] by (auto simp: list_all_iff le_imp_less_Suc)
  from assms a b show ?thesis
    by (simp add: JSON_parse_weight le_imp_less_Suc)
qed

theorem valueToYaml_unwraps_json_text_witness:
  "JSON_parse (tableHost [(''[1]'', Array [Number (Finite ''1'')])]) ''[1]''
     = Inr (Array [Number (Finite ''1'')]) \<and>
   \<not> isString (Array [Number (Finite ''1'')]) \<and>
   valueToYaml (tableHost [(''[1]'', Array [Number (Finite ''1'')])]) (String ''[1]'') 0 = ''- 1''"
proof -
  have p: "JSON_parse (tableHost [(''[1]'', Array [Number (Finite ''1'')])]) ''[1]''
     = Inr (Array [Number (Finite ''1'')])"
    by (simp add: tableHost.rep_eq)
  have n: "\<not> isString (Array [Number (Finite ''1'')])"
    by (simp add: isString_def)
  have "valueToYaml (tableHost [(''[1]'', Array [Number (Finite ''1'')])])
          (Array [Number (Finite ''1'')]) 0 = ''- 1''"
    by (simp add: str_repeat_def)
  with valueToYaml_unwraps_json_text [OF p n, of 0] p n show ?thesis by simp
qed

section \<open>Quoting of keys and of values\<close>

lemma quoted_neq: "escapeString s = s \<Longrightarrow> quoted s \<noteq> s"
proof
  assume "escapeString s = s" "quoted s = s"
  then have "length (quoted s) = length s" by simp
  moreover have "length (quoted s) = length (escapeString s) + 2" by (simp add: quoted_def)
  ultimately show False using \<open>escapeString s = s\<close> by simp
qed

text \<open>
  C6, as the code has it. For every string that contains no newline and no colon followed
  by a space, and that the classifier flags or that is not empty and that escaping leaves
  unchanged: the string as a mapping key is the same text as the string as a scalar value
  of the formatter, in either copy, and that text is the string in double quotes with the
  escaped body when the classifier flags it and the string itself when it does not.
\<close>

theorem key_and_value_quoting_agree:
  assumes "\<not> str_includes s [nl]" and "\<not> str_includes s '': ''"
    and "needsQuotes s \<or> (s \<noteq> [] \<and> escapeString s = s)"
  shows "keyStr s = formatString s \<and> keyStr s = formatString_script s \<and>
         keyStr s = (if needsQuotes s then quoted s else s) \<and>
         (keyStr s = quoted s \<longleftrightarrow> needsQuotes s)"
proof -
  have k: "keyStr s = (if needsQuotes s then quoted s else s)"
    by (simp add: keyStr_def quoted_def)
  have f: "formatString s = (if needsQuotes s then quoted s else s)"
    using assms by (auto simp: formatString_def quoted_def Let_def)
  have g: "formatString_script s = (if needsQuotes s then quoted s else s)"
    using assms by (auto simp: formatString_script_def quoted_def Let_def)
  have q: "\<not> needsQuotes s \<Longrightarrow> quoted s \<noteq> s"
    using assms(3) quoted_neq [of s] by auto
  from k f g q show ?thesis by auto
qed

theorem key_and_value_quoting_agree_witness:
  "\<not> str_includes ''New York'' [nl] \<and> \<not> str_includes ''New York'' '': '' \<and>
   \<not> needsQuotes ''New York'' \<and> escapeString ''New York'' = ''New York'' \<and>
   keyStr ''New York'' = ''New York'' \<and> formatString ''New York'' = ''New York'' \<and>
   formatString_script ''New York'' = ''New York'' \<and>
   \<not> str_includes ''yes'' [nl] \<and> \<not> str_includes ''yes'' '': '' \<and> needsQuotes ''yes'' \<and>
   keyStr ''yes'' = [dquote] @ ''yes'' @ [dquote] \<and>
   formatString ''yes'' = [dquote] @ ''yes'' @ [dquote] \<and>
   formatString_script ''yes'' = [dquote] @ ''yes'' @ [dquote]"
proof -
  have a: "\<not> str_includes ''New York'' [nl]" by simp
  have b: "\<not> str_includes ''New York'' '': ''" by simp
  have n: "\<not> needsQuotes ''New York''"
    by (simp add: needsQuotes_char lowerAscii_def isDigit_def isSpace_def)
  have e: "escapeString ''New York'' = ''New York''"
    by (simp add: escapeString_def JSON_stringify_def quoteChar_def)
  have c: "needsQuotes ''New York'' \<or> (''New York'' \<noteq> [] \<and> escapeString ''New York'' = ''New York'')"
    using e by simp
  note r = key_and_value_quoting_agree [OF a b c]
  from r have "keyStr ''New York'' =
      (if needsQuotes ''New York'' then quoted ''New York'' else ''New York'')"
    by blast
  with n have k: "keyStr ''New York'' = ''New York''" by simp
  from r have "keyStr ''New York'' = formatString ''New York''" by blast
  with k have f: "formatString ''New York'' = ''New York''" by simp
  from r have "keyStr ''New York'' = formatString_script ''New York''" by blast
  with k have g: "formatString_script ''New York'' = ''New York''" by simp
  have a': "\<not> str_includes ''yes'' [nl]" by simp
  have b': "\<not> str_includes ''yes'' '': ''" by simp
  have n': "needsQuotes ''yes''" by (simp add: needsQuotes_char lowerAscii_def)
  have q: "quoted ''yes'' = [dquote] @ ''yes'' @ [dquote]"
    by (simp add: quoted_def escapeString_def JSON_stringify_def quoteChar_def)
  from n' have c': "needsQuotes ''yes'' \<or> (''yes'' \<noteq> [] \<and> escapeString ''yes'' = ''yes'')" ..
  note r' = key_and_value_quoting_agree [OF a' b' c']
  from r' have "keyStr ''yes'' = (if needsQuotes ''yes'' then quoted ''yes'' else ''yes'')"
    by blast
  with n' q have k': "keyStr ''yes'' = [dquote] @ ''yes'' @ [dquote]" by simp
  from r' have "keyStr ''yes'' = formatString ''yes''" by blast
  with k' have f': "formatString ''yes'' = [dquote] @ ''yes'' @ [dquote]" by simp
  from r' have "keyStr ''yes'' = formatString_script ''yes''" by blast
  with k' have g': "formatString_script ''yes'' = [dquote] @ ''yes'' @ [dquote]" by simp
  from a b n e k f g a' b' n' k' f' g' show ?thesis by blast
qed

text \<open>
  C6, as stated, fails: the string \<open>a"b\<close> is written bare as a key and in double quotes
  as a value, by both copies of the formatter.
\<close>

theorem key_bare_where_value_quoted:
  "keyStr [CHR ''a'', dquote, CHR ''b''] = [CHR ''a'', dquote, CHR ''b''] \<and>
   formatString [CHR ''a'', dquote, CHR ''b''] =
     [dquote, CHR ''a'', backslash, dquote, CHR ''b'', dquote] \<and>
   formatString_script [CHR ''a'', dquote, CHR ''b''] =
     [dquote, CHR ''a'', backslash, dquote, CHR ''b'', dquote] \<and>
   valueToYaml (tableHost [])
     (Object [([CHR ''a'', dquote, CHR ''b''], String [CHR ''a'', dquote, CHR ''b''])]) 0 =
     [CHR ''a'', dquote, CHR ''b''] @ '': '' @
     [dquote, CHR ''a'', backslash, dquote, CHR ''b'', dquote]"
proof -
  have n: "\<not> needsQuotes [CHR ''a'', dquote, CHR ''b'']"
    by (simp add: needsQuotes_char lowerAscii_def isDigit_def isSpace_def)
  have e: "escapeString [CHR ''a'', dquote, CHR ''b''] = [CHR ''a'', backslash, dquote, CHR ''b'']"
    by (simp add: escapeString_def JSON_stringify_def quoteChar_def)
  have k: "keyStr [CHR ''a'', dquote, CHR ''b''] = [CHR ''a'', dquote, CHR ''b'']"
    using n by (simp add: keyStr_def)
  have f: "formatString [CHR ''a'', dquote, CHR ''b''] =
     [dquote, CHR ''a'', backslash, dquote, CHR ''b'', dquote]"
    using n e by (simp add: formatString_def)
  have g: "formatString_script [CHR ''a'', dquote, CHR ''b''] =
     [dquote, CHR ''a'', backslash, dquote, CHR ''b'', dquote]"
    using n e by (simp add: formatString_script_def)
  have v: "valueToYaml (tableHost [])
     (Object [([CHR ''a'', dquote, CHR ''b''], String [CHR ''a'', dquote, CHR ''b''])]) 0 =
     [CHR ''a'', dquote, CHR ''b''] @ '': '' @
     [dquote, CHR ''a'', backslash, dquote, CHR ''b'', dquote]"
    by (simp add: k f tableHost.rep_eq str_repeat_def)
  from k f g v show ?thesis by blast
qed

section \<open>Record Driver\<close>

lemma convertLoop_blocks:
  "convertLoop h lines i acc =
   acc @ concat (map (\<lambda>j. blocksOfLine h (j + 1) (str_trim (lines ! j))) [i..<length lines])"
proof (induction h lines i acc rule: convertLoop.induct)
  case (1 h lines i yamlLines)
  show ?case
  proof (cases "i < length lines")
    case False
    then show ?thesis by (simp add: convertLoop.simps [of h lines i])
  next
    case True
    then have up: "[i..<length lines] = i # [i + 1..<length lines]"
      by (simp add: upt_conv_Cons)
    show ?thesis
    proof (cases "str_trim (lines ! i) = []")
      case blank: True
      with True 1(1) [OF True refl blank] show ?thesis
        by (simp add: convertLoop.simps [of h lines i] up blocksOfLine_def)
    next
      case nonblank: False
      show ?thesis
      proof (cases "JSON_parse h (str_trim (lines ! i))")
        case (Inl e)
        then have j: "jsonToYaml h (str_trim (lines ! i)) = Inl (''Failed to parse JSON: '' @ e)"
          by (simp add: jsonToYaml_def)
        from 1(2) [OF True refl nonblank j] True nonblank Inl j show ?thesis
          by (simp add: convertLoop.simps [of h lines i] up blocksOfLine_def)
      next
        case (Inr v)
        then have j: "jsonToYaml h (str_trim (lines ! i)) = Inr (valueToYaml h v 0)"
          by (simp add: jsonToYaml_def)
        from 1(3) [OF True refl nonblank j] True nonblank Inr j show ?thesis
          by (simp add: convertLoop.simps [of h lines i] up blocksOfLine_def)
      qed
    qed
  qed
qed

lemma convertJsonlToYaml_blocks:
  "convertJsonlToYaml h text =
   str_join [nl, nl]
     (concat (map (\<lambda>(j, line). blocksOfLine h (j + 1) (str_trim line))
        (enumerate 0 (str_split nl text))))"
proof -
  have "map (\<lambda>j. blocksOfLine h (j + 1) (str_trim (ls ! j))) [0..<length ls] =
        map (\<lambda>(j, line). blocksOfLine h (j + 1) (str_trim line)) (enumerate 0 ls)" for ls
    by (rule nth_equalityI) (simp_all add: nth_enumerate_eq)
  then show ?thesis
    by (simp add: convertJsonlToYaml_def convertLoop_blocks)
qed

lemma showNat_3: "showNat 3 = ''3''"
  by (simp add: showNat.simps [of 3] digitChar_def char_of_eq_iff)

lemma blocks_of_trimmed:
  "map (\<lambda>(j, line). f j (str_trim line)) (enumerate 0 ls) =
   map (\<lambda>(j, line). f j line) (enumerate 0 (map str_trim ls))"
  by (simp add: enumerate_eq_zip zip_map2 case_prod_unfold)

text \<open>
  C2, as the code has it. The driver returns a text for every input and parser. The text
  is the blocks of the lines, in the order of the lines, joined with one blank line
  between them, where a line numbered from 1 gives no block when it is blank, the
  rendered record when it parses, and otherwise two blocks: the line
  \<open># Error converting line n: \<close> with the error, and the line \<open># Original content: \<close>
  with the trimmed line.
\<close>

theorem convertJsonlToYaml_blocks_in_order:
  "convertJsonlToYaml h text =
   str_join [nl, nl]
     (concat (map (\<lambda>(j, line). blocksOfLine h (j + 1) (str_trim line))
        (enumerate 0 (str_split nl text))))"
  by (rule convertJsonlToYaml_blocks)

theorem convertJsonlToYaml_blocks_in_order_witness:
  "convertJsonlToYaml (tableHost [(''{}'', Object [])]) (''x'' @ [nl] @ '' {} '' @ [nl] @ ''y'') =
   ''# Error converting line 1: Error: Failed to parse JSON: SyntaxError: Unexpected token'' @
   [nl, nl] @ ''# Original content: x'' @ [nl, nl] @ ''{}'' @ [nl, nl] @
   ''# Error converting line 3: Error: Failed to parse JSON: SyntaxError: Unexpected token'' @
   [nl, nl] @ ''# Original content: y''"
proof -
  let ?h = "tableHost [(''{}'', Object [])]"
  have sp: "str_split nl (''x'' @ [nl] @ '' {} '' @ [nl] @ ''y'') = [''x'', '' {} '', ''y'']"
    by simp
  have en: "enumerate 0 [''x'', '' {} '', ''y''] = [(0, ''x''), (1, '' {} ''), (2, ''y'')]"
    by simp
  have b1: "blocksOfLine ?h (0 + 1) (str_trim ''x'') =
      [''# Error converting line 1: Error: Failed to parse JSON: SyntaxError: Unexpected token'',
       ''# Original content: x'']"
    by (simp add: blocksOfLine_def str_trim_def isSpace_def tableHost.rep_eq showNat_1)
  have b2: "blocksOfLine ?h (1 + 1) (str_trim '' {} '') = [''{}'']"
    by (simp add: blocksOfLine_def str_trim_def isSpace_def tableHost.rep_eq)
  have b3: "blocksOfLine ?h (2 + 1) (str_trim ''y'') =
      [''# Error converting line 3: Error: Failed to parse JSON: SyntaxError: Unexpected token'',
       ''# Original content: y'']"
    by (simp add: blocksOfLine_def str_trim_def isSpace_def tableHost.rep_eq showNat_3)
  show ?thesis
    unfolding convertJsonlToYaml_blocks_in_order [of ?h "''x'' @ [nl] @ '' {} '' @ [nl] @ ''y''"]
      sp en list.map prod.case b1 b2 b3
    by simp
qed

text \<open>
  C2, as stated, fails: a line that does not parse gives two blocks with a blank line
  between them, not one block of two lines.
\<close>

theorem convertJsonlToYaml_diagnostic_is_two_blocks:
  "convertJsonlToYaml (tableHost []) ''x'' =
     ''# Error converting line 1: Error: Failed to parse JSON: SyntaxError: Unexpected token'' @
     [nl, nl] @ ''# Original content: x'' \<and>
   renderRecordStream_spec (tableHost []) ''x'' =
     ''# Error converting line 1: Error: Failed to parse JSON: SyntaxError: Unexpected token'' @
     [nl] @ ''# Original content: x''"
  by (simp add: convertJsonlToYaml_def convertLoop.simps [of _ _ 0] convertLoop.simps [of _ _ "Suc 0"]
      renderRecordStream_spec_def diagnosticBlock_spec_def enumerate_eq_zip jsonToYaml_def
      str_trim_def isSpace_def tableHost.rep_eq showNat_1)

text \<open>
  C10. The driver reads every line through \<open>trim\<close>: its output depends on the trimmed
  lines only, so a line of white space counts as an empty line and white space around a
  record changes nothing; a one-line input that is blank gives the empty output, one whose
  trimmed text parses gives the rendered record, and one whose trimmed text does not parse
  gives the diagnostic with the trimmed text after \<open># Original content: \<close>.
\<close>

theorem convertJsonlToYaml_reads_trimmed_lines:
  "(map str_trim (str_split nl jsonlText) = map str_trim (str_split nl otherText) \<longrightarrow>
      convertJsonlToYaml h jsonlText = convertJsonlToYaml h otherText) \<and>
   (nl \<notin> set rawLine \<and> str_trim rawLine = [] \<longrightarrow> convertJsonlToYaml h rawLine = []) \<and>
   (nl \<notin> set rawLine \<and> str_trim rawLine \<noteq> [] \<and> JSON_parse h (str_trim rawLine) = Inr v \<longrightarrow>
      convertJsonlToYaml h rawLine = valueToYaml h v 0) \<and>
   (nl \<notin> set rawLine \<and> str_trim rawLine \<noteq> [] \<and> JSON_parse h (str_trim rawLine) = Inl e \<longrightarrow>
      convertJsonlToYaml h rawLine =
        ''# Error converting line 1: Error: Failed to parse JSON: '' @ e @ [nl, nl] @
        ''# Original content: '' @ str_trim rawLine)"
proof -
  have one: "nl \<notin> set rawLine \<Longrightarrow>
      convertJsonlToYaml h rawLine = str_join [nl, nl] (blocksOfLine h 1 (str_trim rawLine))"
    by (simp add: convertJsonlToYaml_blocks str_split_no_sep enumerate_eq_zip)
  have tr: "convertJsonlToYaml h t =
      str_join [nl, nl]
        (concat (map (\<lambda>(j, line). blocksOfLine h (j + 1) line)
           (enumerate 0 (map str_trim (str_split nl t)))))" for t
    using blocks_of_trimmed [of "\<lambda>j. blocksOfLine h (j + 1)" "str_split nl t"]
    by (simp only: convertJsonlToYaml_blocks)
  have dep: "map str_trim (str_split nl jsonlText) = map str_trim (str_split nl otherText) \<Longrightarrow>
      convertJsonlToYaml h jsonlText = convertJsonlToYaml h otherText"
    by (simp only: tr)
  from one dep show ?thesis
    by (auto simp: blocksOfLine_def showNat_1)
qed

theorem convertJsonlToYaml_reads_trimmed_lines_witness:
  "map str_trim (str_split nl (''  {} '' @ [nl] @ ''   '' @ [nl] @ ''x '')) =
     map str_trim (str_split nl (''{}'' @ [nl] @ [nl] @ ''x'')) \<and>
   convertJsonlToYaml (tableHost [(''{}'', Object [])]) (''  {} '' @ [nl] @ ''   '' @ [nl] @ ''x '') =
     convertJsonlToYaml (tableHost [(''{}'', Object [])]) (''{}'' @ [nl] @ [nl] @ ''x'') \<and>
   convertJsonlToYaml (tableHost [(''{}'', Object [])]) ''   '' = [] \<and>
   convertJsonlToYaml (tableHost [(''{}'', Object [])]) ''  {} '' = ''{}'' \<and>
   convertJsonlToYaml (tableHost [(''{}'', Object [])]) '' x  '' =
     ''# Error converting line 1: Error: Failed to parse JSON: SyntaxError: Unexpected token'' @
     [nl, nl] @ ''# Original content: x''"
proof -
  let ?h = "tableHost [(''{}'', Object [])]"
  have t: "map str_trim (str_split nl (''  {} '' @ [nl] @ ''   '' @ [nl] @ ''x '')) =
     map str_trim (str_split nl (''{}'' @ [nl] @ [nl] @ ''x''))"
    by (simp add: str_trim_def isSpace_def)
  have b: "nl \<notin> set ''   '' \<and> str_trim ''   '' = []"
    by (simp add: str_trim_def isSpace_def)
  have s: "nl \<notin> set ''  {} '' \<and> str_trim ''  {} '' \<noteq> [] \<and>
      JSON_parse ?h (str_trim ''  {} '') = Inr (Object [])"
    by (simp add: str_trim_def isSpace_def tableHost.rep_eq)
  have f: "nl \<notin> set '' x  '' \<and> str_trim '' x  '' \<noteq> [] \<and>
      JSON_parse ?h (str_trim '' x  '') = Inl ''SyntaxError: Unexpected token''"
    by (simp add: str_trim_def isSpace_def tableHost.rep_eq)
  have x: "str_trim '' x  '' = ''x''" by (simp add: str_trim_def isSpace_def)
  from convertJsonlToYaml_reads_trimmed_lines
    [where jsonlText = "''  {} '' @ [nl] @ ''   '' @ [nl] @ ''x ''"
       and otherText = "''{}'' @ [nl] @ [nl] @ ''x''" and rawLine = "''   ''" and h = ?h]
    t b
  have c1: "convertJsonlToYaml ?h (''  {} '' @ [nl] @ ''   '' @ [nl] @ ''x '') =
     convertJsonlToYaml ?h (''{}'' @ [nl] @ [nl] @ ''x'')"
    and c2: "convertJsonlToYaml ?h ''   '' = []"
    by blast+
  from convertJsonlToYaml_reads_trimmed_lines
    [where rawLine = "''  {} ''" and h = ?h and v = "Object []"] s
  have c3: "convertJsonlToYaml ?h ''  {} '' = ''{}''"
    by simp
  from convertJsonlToYaml_reads_trimmed_lines
    [where rawLine = "'' x  ''" and h = ?h and e = "''SyntaxError: Unexpected token''"] f x
  have c4: "convertJsonlToYaml ?h '' x  '' =
     ''# Error converting line 1: Error: Failed to parse JSON: SyntaxError: Unexpected token'' @
     [nl, nl] @ ''# Original content: x''"
    by simp
  from t c1 c2 c3 c4 show ?thesis by blast
qed

end
